theory Spec2Isabelle
  imports Main
begin

section \<open>The persistent store (database/schema.sql)\<close>

text \<open>
  The three relations of the schema, one record per row, a list per table in rowid order.
  Column names are kept, prefixed where two tables share a name (\<open>id\<close>, \<open>status\<close>).
  \<open>event_date\<close> is stored as text and read back through \<open>new Date(...)\<close>: the model keeps
  the instant it denotes (milliseconds), or \<open>InvalidDate\<close> when the text does not parse.
  The \<open>AUTOINCREMENT\<close> counters of \<open>users\<close> and \<open>rsvps\<close> are part of the store.
  The connections opened by \<open>getDb\<close> never switch foreign-key enforcement on, so the
  model has no cascade and no foreign-key failure of its own; a statement that the store
  refuses for any reason is a fault of the environment (see \<open>store_fails\<close>).
\<close>

datatype js_date = Instant int | InvalidDate

record user_row =
  u_id :: int
  username :: string
  email :: string
  password_hash :: string
  role :: string
  first_name :: string
  last_name :: string

record event_row =
  e_id :: int
  title :: string
  description :: "string option"
  event_date :: js_date
  location :: string
  max_attendees :: "int option"
  created_by :: int
  e_status :: string

record rsvp_row =
  r_id :: int
  user_id :: int
  event_id :: int
  r_status :: string
  rsvp_date :: int
  r_notes :: "string option"

record db =
  users :: "user_row list"
  events :: "event_row list"
  rsvps :: "rsvp_row list"
  users_seq :: int
  rsvps_seq :: int

text \<open>\<open>UNIQUE(user_id, event_id)\<close> on \<open>rsvps\<close>, as a predicate on the table.\<close>

definition rsvp_key :: "rsvp_row \<Rightarrow> int \<times> int" where
  "rsvp_key r = (user_id r, event_id r)"

definition rsvps_unique :: "db \<Rightarrow> bool" where
  "rsvps_unique d = distinct (map rsvp_key (rsvps d))"

text \<open>\<open>CHECK (status IN ('attending', 'maybe', 'not_attending'))\<close> on \<open>rsvps\<close>.\<close>

definition rsvp_statuses :: "string list" where
  "rsvp_statuses = [''attending'', ''maybe'', ''not_attending'']"

definition status_check :: "string \<Rightarrow> bool" where
  "status_check st = (st \<in> set rsvp_statuses)"

section \<open>Requests, responses and the environment of one request\<close>

text \<open>
  \<open>res.status(c).json({message, ...})\<close> is \<open>Success c message payload\<close>;
  \<open>res.status(c).json({error})\<close> is \<open>Failure c error\<close>, with the two richer shapes the
  code uses: \<open>{error, message}\<close> (the access gate) and \<open>{error, details}\<close> (validation).
\<close>

datatype 'a response =
    Success nat string 'a
  | Failure nat string
  | FailureMsg nat string string
  | FailureDetails nat string "string list"

fun is_success :: "'a response \<Rightarrow> bool" where
  "is_success (Success c m p) = True"
| "is_success (Failure c e) = False"
| "is_success (FailureMsg c e m) = False"
| "is_success (FailureDetails c e ds) = False"

text \<open>
  Every store call of the routes has an \<open>if (err)\<close> branch. Which calls fail is decided
  by the environment of the request, together with the two clocks: \<open>new Date()\<close> of the
  server and \<open>CURRENT_TIMESTAMP\<close> of the store.
\<close>

datatype store_call =
    FetchEvent | CountAttending | FindExisting | WriteRSVP | FetchDetails
  | DeleteRow | FindUser | InsertUser | FetchUser

record env =
  now :: int
  current_timestamp :: int
  store_fails :: "store_call \<Rightarrow> bool"

record session_user =
  s_id :: int
  s_username :: string
  s_email :: string
  s_role :: string
  s_firstName :: string
  s_lastName :: string

text \<open>middleware/auth.js, \<open>authMiddleware\<close>: \<open>Inr\<close> is \<open>next()\<close> with the session's user.\<close>

definition authMiddleware :: "session_user option \<Rightarrow> 'a response + session_user" where
  "authMiddleware sess =
     (case sess of
        None \<Rightarrow> Inl (FailureMsg 401 ''Authentication required''
                        ''Please log in to access this resource'')
      | Some u \<Rightarrow>
          if s_id u = 0 \<or> s_username u = []
          then Inl (FailureMsg 401 ''Invalid session''
                      ''Session data is corrupted, please log in again'')
          else Inr u)"

section \<open>routes/rsvps.js\<close>

record rsvp_body =
  eventId :: int
  status :: string
  body_notes :: "string option"

text \<open>\<open>validateRSVP\<close>: the messages of the validators that fail, in order.\<close>

definition validateRSVP :: "rsvp_body \<Rightarrow> string list" where
  "validateRSVP b =
     (if 1 \<le> eventId b then [] else [''Valid event ID is required'']) @
     (if status b \<in> set rsvp_statuses then []
      else [''Status must be attending, maybe, or not_attending'']) @
     (case body_notes b of
        None \<Rightarrow> []
      | Some n \<Rightarrow> if length n \<le> 500 then []
                  else [''Notes cannot exceed 500 characters''])"

text \<open>\<open>notes || null\<close>: the empty string is falsy.\<close>

definition or_null :: "string option \<Rightarrow> string option" where
  "or_null n = (case n of None \<Rightarrow> None | Some s \<Rightarrow> if s = [] then None else Some s)"

text \<open>\<open>event.max_attendees\<close> as a condition: \<open>NULL\<close> and \<open>0\<close> are falsy.\<close>

definition js_truthy :: "int option \<Rightarrow> bool" where
  "js_truthy v = (case v of None \<Rightarrow> False | Some n \<Rightarrow> n \<noteq> 0)"

text \<open>\<open>new Date(event.event_date) <= new Date()\<close>: false on an invalid date (NaN).\<close>

definition date_le_now :: "js_date \<Rightarrow> int \<Rightarrow> bool" where
  "date_le_now d n = (case d of Instant t \<Rightarrow> t \<le> n | InvalidDate \<Rightarrow> False)"

text \<open>\<open>SELECT ... FROM events WHERE id = ? AND status = "active"\<close>\<close>

definition fetch_active_event :: "db \<Rightarrow> int \<Rightarrow> event_row option" where
  "fetch_active_event d eid =
     find (\<lambda>e. e_id e = eid \<and> e_status e = ''active'') (events d)"

text \<open>\<open>SELECT COUNT(*) FROM rsvps WHERE event_id = ? AND status = "attending"\<close>\<close>

definition count_attending :: "db \<Rightarrow> int \<Rightarrow> nat" where
  "count_attending d eid =
     length (filter (\<lambda>r. event_id r = eid \<and> r_status r = ''attending'') (rsvps d))"

text \<open>\<open>result.count >= event.max_attendees\<close> (\<open>null\<close> compares as 0).\<close>

definition count_ge :: "nat \<Rightarrow> int option \<Rightarrow> bool" where
  "count_ge n cap = (case cap of None \<Rightarrow> 0 \<le> int n | Some c \<Rightarrow> c \<le> int n)"

text \<open>\<open>SELECT id FROM rsvps WHERE user_id = ? AND event_id = ?\<close>\<close>

definition find_rsvp :: "db \<Rightarrow> int \<Rightarrow> int \<Rightarrow> rsvp_row option" where
  "find_rsvp d uid eid = find (\<lambda>r. rsvp_key r = (uid, eid)) (rsvps d)"

text \<open>
  \<open>UPDATE rsvps SET status = ?, notes = ?, rsvp_date = CURRENT_TIMESTAMP
  WHERE user_id = ? AND event_id = ?\<close>: every matching row is rewritten; the statement
  fails on the \<open>CHECK\<close> constraint.
\<close>

definition set_rsvp :: "string \<Rightarrow> string option \<Rightarrow> int \<Rightarrow> rsvp_row \<Rightarrow> rsvp_row" where
  "set_rsvp st nt ts r = r\<lparr>r_status := st, rsvp_date := ts, r_notes := nt\<rparr>"

definition update_rsvp :: "db \<Rightarrow> int \<Rightarrow> int \<Rightarrow> string \<Rightarrow> string option \<Rightarrow> int \<Rightarrow> db option" where
  "update_rsvp d uid eid st nt ts =
     (if \<not> status_check st then None
      else Some (d\<lparr>rsvps :=
             map (\<lambda>r. if rsvp_key r = (uid, eid) then set_rsvp st nt ts r else r) (rsvps d)\<rparr>))"

text \<open>
  \<open>INSERT INTO rsvps (user_id, event_id, status, notes) VALUES (?, ?, ?, ?)\<close>: the new
  row takes the next \<open>AUTOINCREMENT\<close> id and the default \<open>rsvp_date\<close>; the statement fails on
  the \<open>UNIQUE\<close> and \<open>CHECK\<close> constraints.
\<close>

definition next_id :: "int \<Rightarrow> int list \<Rightarrow> int" where
  "next_id seq ids = fold max ids seq + 1"

definition insert_rsvp :: "db \<Rightarrow> int \<Rightarrow> int \<Rightarrow> string \<Rightarrow> string option \<Rightarrow> int \<Rightarrow> db option" where
  "insert_rsvp d uid eid st nt ts =
     (if \<not> status_check st \<or> (uid, eid) \<in> set (map rsvp_key (rsvps d)) then None
      else
        let i = next_id (rsvps_seq d) (map r_id (rsvps d))
        in Some (d\<lparr>rsvps := rsvps d @
                   [\<lparr>r_id = i, user_id = uid, event_id = eid, r_status = st,
                     rsvp_date = ts, r_notes = nt\<rparr>],
                 rsvps_seq := i\<rparr>))"

text \<open>
  \<open>getRSVPDetails\<close>: \<open>SELECT r.*, e.title, e.event_date, e.location FROM rsvps r JOIN events e
  ON r.event_id = e.id WHERE r.user_id = ? AND r.event_id = ?\<close>, first row or undefined.
\<close>

record rsvp_details =
  rsvp :: rsvp_row
  d_title :: string
  d_event_date :: js_date
  d_location :: string

definition join_details :: "db \<Rightarrow> int \<Rightarrow> int \<Rightarrow> rsvp_details option" where
  "join_details d uid eid =
     (case find_rsvp d uid eid of
        None \<Rightarrow> None
      | Some r \<Rightarrow>
          (case find (\<lambda>e. e_id e = eid) (events d) of
             None \<Rightarrow> None
           | Some e \<Rightarrow> Some \<lparr>rsvp = r, d_title = title e, d_event_date = event_date e,
                             d_location = location e\<rparr>))"

definition getRSVPDetails ::
  "env \<Rightarrow> int \<Rightarrow> int \<Rightarrow> db \<Rightarrow> rsvp_details option response \<times> db" where
  "getRSVPDetails en uid eid d =
     (if store_fails en FetchDetails then (Failure 500 ''RSVP saved but fetch failed'', d)
      else (Success 200 ''RSVP saved successfully'' (join_details d uid eid), d))"

definition upsertRSVP ::
  "env \<Rightarrow> int \<Rightarrow> rsvp_body \<Rightarrow> db \<Rightarrow> rsvp_details option response \<times> db" where
  "upsertRSVP en uid b d =
     (if store_fails en FindExisting then (Failure 500 ''Database error'', d)
      else
        (case find_rsvp d uid (eventId b) of
           Some existingRSVP \<Rightarrow>
             (if store_fails en WriteRSVP then (Failure 500 ''Failed to update RSVP'', d)
              else
                (case update_rsvp d uid (eventId b) (status b) (or_null (body_notes b))
                        (current_timestamp en) of
                   None \<Rightarrow> (Failure 500 ''Failed to update RSVP'', d)
                 | Some d' \<Rightarrow> getRSVPDetails en uid (eventId b) d'))
         | None \<Rightarrow>
             (if store_fails en WriteRSVP then (Failure 500 ''Failed to create RSVP'', d)
              else
                (case insert_rsvp d uid (eventId b) (status b) (or_null (body_notes b))
                        (current_timestamp en) of
                   None \<Rightarrow> (Failure 500 ''Failed to create RSVP'', d)
                 | Some d' \<Rightarrow> getRSVPDetails en uid (eventId b) d'))))"

text \<open>
  \<open>router.post('/', authMiddleware, validateRSVP, ...)\<close>: the access gate, the validation
  result, the event fetch, the date check, the capacity check, then \<open>upsertRSVP\<close>.
\<close>

definition post_rsvp ::
  "env \<Rightarrow> session_user option \<Rightarrow> rsvp_body \<Rightarrow> db \<Rightarrow> rsvp_details option response \<times> db" where
  "post_rsvp en sess b d =
     (case authMiddleware sess of
        Inl r \<Rightarrow> (r, d)
      | Inr u \<Rightarrow>
          (case validateRSVP b of
             e # es \<Rightarrow> (FailureDetails 400 ''Validation failed'' (e # es), d)
           | [] \<Rightarrow>
               if store_fails en FetchEvent then (Failure 500 ''Database error'', d)
               else
                 (case fetch_active_event d (eventId b) of
                    None \<Rightarrow> (Failure 404 ''Event not found or inactive'', d)
                  | Some event \<Rightarrow>
                      if date_le_now (event_date event) (now en)
                      then (Failure 400 ''Cannot RSVP to past events'', d)
                      else if status b = ''attending'' \<and> js_truthy (max_attendees event)
                      then
                        (if store_fails en CountAttending
                         then (Failure 500 ''Database error'', d)
                         else if count_ge (count_attending d (eventId b)) (max_attendees event)
                         then (Failure 400 ''Event is at full capacity'', d)
                         else upsertRSVP en (s_id u) b d)
                      else upsertRSVP en (s_id u) b d)))"

text \<open>
  \<open>router.delete('/:eventId', authMiddleware, ...)\<close>. The path segment is text; the store
  compares it with the integer column, so the model takes the integer it denotes, or
  \<open>None\<close> when it denotes none (and then no row matches). \<open>this.changes\<close> is the number of
  rows deleted.
\<close>

definition delete_rows :: "db \<Rightarrow> int \<Rightarrow> int option \<Rightarrow> db" where
  "delete_rows d uid p =
     (case p of
        None \<Rightarrow> d
      | Some eid \<Rightarrow> d\<lparr>rsvps := filter (\<lambda>r. rsvp_key r \<noteq> (uid, eid)) (rsvps d)\<rparr>)"

definition delete_rsvp ::
  "env \<Rightarrow> session_user option \<Rightarrow> int option \<Rightarrow> db \<Rightarrow> unit response \<times> db" where
  "delete_rsvp en sess p d =
     (case authMiddleware sess of
        Inl r \<Rightarrow> (r, d)
      | Inr u \<Rightarrow>
          if store_fails en DeleteRow then (Failure 500 ''Failed to delete RSVP'', d)
          else
            let d' = delete_rows d (s_id u) p;
                changes = length (rsvps d) - length (rsvps d')
            in if changes = 0 then (Failure 404 ''RSVP not found'', d')
               else (Success 200 ''RSVP deleted successfully'' (), d'))"

section \<open>routes/auth.js\<close>

text \<open>
  The two libraries the route calls are parameters: \<open>isEmail\<close> of the validator,
  \<open>bcrypt.hash\<close> (the salted hash this call produces) and \<open>bcrypt.compare\<close>
  (\<open>None\<close> when it throws, the \<open>catch (bcryptError)\<close> branch).
\<close>

record auth_lib =
  isEmail :: "string \<Rightarrow> bool"
  bcrypt_hash :: "string \<Rightarrow> string"
  bcrypt_compare :: "string \<Rightarrow> string \<Rightarrow> bool option"

record register_body =
  reg_username :: string
  reg_email :: string
  reg_password :: string
  reg_firstName :: string
  reg_lastName :: string

text \<open>The character class \<open>[a-zA-Z0-9_]\<close> of the username pattern.\<close>

definition word_char :: "char \<Rightarrow> bool" where
  "word_char c =
     (let n = (of_char c :: nat)
      in (97 \<le> n \<and> n \<le> 122) \<or> (65 \<le> n \<and> n \<le> 90) \<or> (48 \<le> n \<and> n \<le> 57) \<or> n = 95)"

definition validateRegistration :: "auth_lib \<Rightarrow> register_body \<Rightarrow> string list" where
  "validateRegistration lib b =
     (if 3 \<le> length (reg_username b) then []
      else [''Username must be at least 3 characters long'']) @
     (if reg_username b \<noteq> [] \<and> list_all word_char (reg_username b) then []
      else [''Username can only contain letters, numbers, and underscores'']) @
     (if isEmail lib (reg_email b) then [] else [''Please provide a valid email address'']) @
     (if 6 \<le> length (reg_password b) then []
      else [''Password must be at least 6 characters long'']) @
     (if 1 \<le> length (reg_firstName b) then [] else [''First name is required'']) @
     (if 1 \<le> length (reg_lastName b) then [] else [''Last name is required''])"

text \<open>\<open>SELECT id FROM users WHERE username = ? OR email = ?\<close>\<close>

definition find_user :: "db \<Rightarrow> string \<Rightarrow> string \<Rightarrow> user_row option" where
  "find_user d un em = find (\<lambda>u. username u = un \<or> email u = em) (users d)"

text \<open>
  \<open>INSERT INTO users (username, email, password_hash, first_name, last_name)\<close>: the role
  takes its default, the id the next \<open>AUTOINCREMENT\<close> value; the statement fails on the two
  \<open>UNIQUE\<close> constraints. The result carries the new row, which is the row that
  \<open>SELECT ... WHERE id = this.lastID\<close> then reads.
\<close>

definition insert_user ::
  "db \<Rightarrow> string \<Rightarrow> string \<Rightarrow> string \<Rightarrow> string \<Rightarrow> string \<Rightarrow> (db \<times> user_row) option" where
  "insert_user d un em ph fn ln =
     (if un \<in> set (map username (users d)) \<or> em \<in> set (map email (users d)) then None
      else
        let i = next_id (users_seq d) (map u_id (users d));
            row = \<lparr>u_id = i, username = un, email = em, password_hash = ph,
                   role = ''user'', first_name = fn, last_name = ln\<rparr>
        in Some (d\<lparr>users := users d @ [row], users_seq := i\<rparr>, row))"

definition user_view :: "user_row \<Rightarrow> session_user" where
  "user_view u = \<lparr>s_id = u_id u, s_username = username u, s_email = email u,
                  s_role = role u, s_firstName = first_name u, s_lastName = last_name u\<rparr>"

text \<open>\<open>router.post('/register', validateRegistration, ...)\<close>: response, store, session.\<close>

definition register ::
  "auth_lib \<Rightarrow> env \<Rightarrow> session_user option \<Rightarrow> register_body \<Rightarrow> db
     \<Rightarrow> session_user response \<times> db \<times> session_user option" where
  "register lib en sess b d =
     (case validateRegistration lib b of
        e # es \<Rightarrow> (FailureDetails 400 ''Validation failed'' (e # es), d, sess)
      | [] \<Rightarrow>
          let passwordHash = bcrypt_hash lib (reg_password b)
          in if store_fails en FindUser then (Failure 500 ''Database error'', d, sess)
             else
               (case find_user d (reg_username b) (reg_email b) of
                  Some row \<Rightarrow> (Failure 409 ''Username or email already exists'', d, sess)
                | None \<Rightarrow>
                    if store_fails en InsertUser
                    then (Failure 500 ''Failed to create user'', d, sess)
                    else
                      (case insert_user d (reg_username b) (reg_email b) passwordHash
                              (reg_firstName b) (reg_lastName b) of
                         None \<Rightarrow> (Failure 500 ''Failed to create user'', d, sess)
                       | Some (d', user) \<Rightarrow>
                           if store_fails en FetchUser
                           then (Failure 500 ''User created but fetch failed'', d', sess)
                           else (Success 201 ''User registered successfully'' (user_view user),
                                 d', Some (user_view user)))))"

record login_body =
  login_username :: string
  login_password :: string



section \<open>routes/events.js: what the event routes store\<close>

text \<open>
  Of \<open>validateEvent\<close> and the two writes (\<open>POST /\<close>, \<open>PUT /:id\<close>) the RSVP flow depends on
  two columns. \<open>maxAttendees\<close> is optional and must be an integer of at least 1; the bound
  parameter is \<open>maxAttendees || null\<close>. \<open>eventDate\<close> passes the custom check unless
  \<open>new Date(value) <= new Date()\<close>.
\<close>

definition validate_maxAttendees :: "int option \<Rightarrow> string list" where
  "validate_maxAttendees m =
     (case m of
        None \<Rightarrow> []
      | Some n \<Rightarrow> if 1 \<le> n then [] else [''Max attendees must be a positive number''])"

definition bind_maxAttendees :: "int option \<Rightarrow> int option" where
  "bind_maxAttendees m = (case m of None \<Rightarrow> None | Some n \<Rightarrow> if n = 0 then None else Some n)"

definition eventDate_custom :: "js_date \<Rightarrow> int \<Rightarrow> string list" where
  "eventDate_custom value n =
     (if date_le_now value n then [''Event date must be in the future''] else [])"

section \<open>The write of the upsert, and sequences of requests\<close>

text \<open>
  \<open>rsvp_write\<close> is the one statement \<open>upsertRSVP\<close> sends to the store: the \<open>UPDATE\<close> when
  the lookup found a row, the \<open>INSERT\<close> otherwise. \<open>run_rsvps\<close> serves a list of requests
  one after the other, each on the store the previous one left. \<open>capacity_inv\<close> is the
  invariant of the capacity check, \<open>attending_at\<close> the condition of the count query.
\<close>

definition rsvp_write :: "env \<Rightarrow> int \<Rightarrow> rsvp_body \<Rightarrow> db \<Rightarrow> db option" where
  "rsvp_write en uid b d =
     (case find_rsvp d uid (eventId b) of
        Some x \<Rightarrow> update_rsvp d uid (eventId b) (status b) (or_null (body_notes b)) (current_timestamp en)
      | None \<Rightarrow> insert_rsvp d uid (eventId b) (status b) (or_null (body_notes b)) (current_timestamp en))"

fun run_rsvps :: "db \<Rightarrow> (env \<times> session_user option \<times> rsvp_body) list \<Rightarrow> db" where
  "run_rsvps d [] = d"
| "run_rsvps d ((en, sess, b) # reqs) = run_rsvps (snd (post_rsvp en sess b d)) reqs"

definition capacity_inv :: "int \<Rightarrow> int \<Rightarrow> db \<Rightarrow> bool" where
  "capacity_inv eid C d \<longleftrightarrow>
     rsvps_unique d \<and> (\<forall>ev \<in> set (events d). e_id ev = eid \<longrightarrow> max_attendees ev = Some C) \<and>
     int (count_attending d eid) \<le> C"

definition attending_at :: "int \<Rightarrow> rsvp_row \<Rightarrow> bool" where
  "attending_at e r \<longleftrightarrow> event_id r = e \<and> r_status r = ''attending''"

section \<open>Sample data\<close>

text \<open>
  Values in the shape of database/seed.js, used where a statement is evaluated on a
  concrete store: an environment without store failures, two users, one event (its date
  is the instant 5000), and stand-ins for the validator's and bcrypt's functions.
\<close>

definition no_faults :: "store_call \<Rightarrow> bool" where
  "no_faults c = False"

definition env_at :: "int \<Rightarrow> env" where
  "env_at t = \<lparr>now = t, current_timestamp = t, store_fails = no_faults\<rparr>"

definition fetch_details_fails :: "store_call \<Rightarrow> bool" where
  "fetch_details_fails c = (c = FetchDetails)"

definition env_fetch_fails :: env where
  "env_fetch_fails = \<lparr>now = 1000, current_timestamp = 1000, store_fails = fetch_details_fails\<rparr>"

definition john :: session_user where
  "john = \<lparr>s_id = 2, s_username = ''john_doe'', s_email = ''john@example.com'',
            s_role = ''user'', s_firstName = ''John'', s_lastName = ''Doe''\<rparr>"

definition jane :: session_user where
  "jane = \<lparr>s_id = 3, s_username = ''jane_smith'', s_email = ''jane@example.com'',
            s_role = ''user'', s_firstName = ''Jane'', s_lastName = ''Smith''\<rparr>"

definition workshop :: "int option \<Rightarrow> event_row" where
  "workshop cap = \<lparr>e_id = 1, title = ''Team Building Workshop'', description = None,
                    event_date = Instant 5000, location = ''Corporate Training Center'',
                    max_attendees = cap, created_by = 1, e_status = ''active''\<rparr>"

definition cancelled :: "event_row \<Rightarrow> event_row" where
  "cancelled ev = ev\<lparr>e_status := ''cancelled''\<rparr>"

definition undated :: "event_row \<Rightarrow> event_row" where
  "undated ev = ev\<lparr>event_date := InvalidDate\<rparr>"

definition store_of :: "event_row \<Rightarrow> db" where
  "store_of ev = \<lparr>users = [], events = [ev], rsvps = [], users_seq = 0, rsvps_seq = 0\<rparr>"

definition respond :: "string \<Rightarrow> rsvp_body" where
  "respond st = \<lparr>eventId = 1, status = st, body_notes = None\<rparr>"

definition john_attending :: db where
  "john_attending =
     snd (post_rsvp (env_at 1000) (Some john) (respond ''attending'') (store_of (workshop (Some 1))))"

definition scenario :: "(rsvp_details option response \<times> db) list" where
  "scenario =
     (let s1 = post_rsvp (env_at 1000) (Some john) (respond ''attending'')
                 (store_of (workshop (Some 1)));
          s2 = post_rsvp (env_at 2000) (Some jane) (respond ''attending'') (snd s1);
          s3 = post_rsvp (env_at 3000) (Some john) (respond ''maybe'') (snd s2);
          s4 = post_rsvp (env_at 4000) (Some jane) (respond ''attending'') (snd s3)
      in [s1, s2, s3, s4])"

definition sample_isEmail :: "string \<Rightarrow> bool" where
  "sample_isEmail s = (CHR ''@'' \<in> set s)"

definition sample_hash :: "string \<Rightarrow> string" where
  "sample_hash p = ''$2b$10$'' @ rev p"

definition sample_compare :: "string \<Rightarrow> string \<Rightarrow> bool option" where
  "sample_compare p h = Some (h = sample_hash p)"

definition sample_lib :: auth_lib where
  "sample_lib = \<lparr>isEmail = sample_isEmail, bcrypt_hash = sample_hash,
                  bcrypt_compare = sample_compare\<rparr>"

definition throwing_compare :: "string \<Rightarrow> string \<Rightarrow> bool option" where
  "throwing_compare p h = None"

definition throwing_lib :: auth_lib where
  "throwing_lib = \<lparr>isEmail = sample_isEmail, bcrypt_hash = sample_hash,
                    bcrypt_compare = throwing_compare\<rparr>"

definition john_row :: user_row where
  "john_row = \<lparr>u_id = 2, username = ''john_doe'', email = ''john@example.com'',
                password_hash = sample_hash ''user123'', role = ''user'',
                first_name = ''John'', last_name = ''Doe''\<rparr>"

definition users_store :: db where
  "users_store = \<lparr>users = [john_row], events = [], rsvps = [], users_seq = 2, rsvps_seq = 0\<rparr>"

definition signup :: "string \<Rightarrow> string \<Rightarrow> register_body" where
  "signup un em = \<lparr>reg_username = un, reg_email = em, reg_password = ''secret1'',
                    reg_firstName = ''Johnny'', reg_lastName = ''Doe''\<rparr>"

definition credentials :: "string \<Rightarrow> string \<Rightarrow> login_body" where
  "credentials un pw = \<lparr>login_username = un, login_password = pw\<rparr>"

section \<open>Properties of the store operations\<close>

lemmas example_defs = no_faults_def env_at_def john_def jane_def workshop_def store_of_def respond_def

lemmas rsvp_defs = post_rsvp_def authMiddleware_def validateRSVP_def rsvp_statuses_def
  status_check_def fetch_active_event_def date_le_now_def js_truthy_def count_ge_def
  count_attending_def upsertRSVP_def find_rsvp_def rsvp_key_def update_rsvp_def set_rsvp_def
  insert_rsvp_def next_id_def getRSVPDetails_def join_details_def or_null_def

lemmas auth_example_defs = sample_isEmail_def sample_hash_def sample_compare_def sample_lib_def
  throwing_compare_def throwing_lib_def john_row_def users_store_def signup_def credentials_def no_faults_def env_at_def

subsection \<open>The access gate and the validators\<close>

lemma authMiddleware_Inr:
  "authMiddleware sess = Inr u \<longleftrightarrow> sess = Some u \<and> s_id u \<noteq> 0 \<and> s_username u \<noteq> []"
  by (auto simp: authMiddleware_def split: option.splits)

lemma authMiddleware_Inl:
  "authMiddleware sess = Inl x \<Longrightarrow> \<exists>c e m. x = FailureMsg c e m"
  by (auto simp: authMiddleware_def split: option.splits if_splits)

lemma validateRSVP_Nil:
  "validateRSVP b = [] \<longleftrightarrow>
     1 \<le> eventId b \<and> status_check (status b) \<and>
     (case body_notes b of None \<Rightarrow> True | Some n \<Rightarrow> length n \<le> 500)"
  by (auto simp: validateRSVP_def status_check_def split: option.splits)

text \<open>A capacity stored by the event routes is \<open>NULL\<close> or at least 1.\<close>

lemma stored_capacity_positive:
  "validate_maxAttendees m = [] \<Longrightarrow> bind_maxAttendees m = Some C \<Longrightarrow> 1 \<le> C"
  by (auto simp: validate_maxAttendees_def bind_maxAttendees_def split: option.splits if_splits)

subsection \<open>Lookups\<close>

lemma find_app:
  "find P (xs @ ys) = (case find P xs of None \<Rightarrow> find P ys | Some x \<Rightarrow> Some x)"
  by (induction xs) auto

lemma find_rsvp_None: "find_rsvp d uid eid = None \<longleftrightarrow> (uid, eid) \<notin> set (map rsvp_key (rsvps d))"
  by (force simp: find_rsvp_def find_None_iff)

lemma find_rsvp_Some:
  "find_rsvp d uid eid = Some x \<Longrightarrow> x \<in> set (rsvps d) \<and> user_id x = uid \<and> event_id x = eid"
  by (auto simp: find_rsvp_def find_Some_iff rsvp_key_def)

lemma fetch_active_event_Some:
  "fetch_active_event d eid = Some ev \<Longrightarrow>
   ev \<in> set (events d) \<and> e_id ev = eid \<and> e_status ev = ''active''"
  by (auto simp: fetch_active_event_def find_Some_iff)

lemma find_user_None:
  "find_user d un em = None \<longleftrightarrow> (\<forall>row \<in> set (users d). username row \<noteq> un \<and> email row \<noteq> em)"
  by (auto simp: find_user_def find_None_iff)

lemma count_attending_alt: "count_attending d e = length (filter (attending_at e) (rsvps d))"
  by (simp add: count_attending_def attending_at_def [abs_def])

lemma count_zero_not_attending:
  "count_attending d e = 0 \<Longrightarrow> x \<in> set (rsvps d) \<Longrightarrow> \<not> attending_at e x"
  by (auto simp: count_attending_alt filter_empty_conv)

subsection \<open>UPDATE and INSERT\<close>

lemma key_set_rsvp: "rsvp_key (set_rsvp st nt ts r) = rsvp_key r"
  by (simp add: rsvp_key_def set_rsvp_def)

lemma update_rsvp_rows:
  "update_rsvp d uid eid st nt ts = Some d' \<Longrightarrow>
   rsvps d' = map (\<lambda>r. if rsvp_key r = (uid, eid) then set_rsvp st nt ts r else r) (rsvps d)"
  by (auto simp: update_rsvp_def split: if_splits)

lemma update_rsvp_keys:
  "update_rsvp d uid eid st nt ts = Some d' \<Longrightarrow> map rsvp_key (rsvps d') = map rsvp_key (rsvps d)"
  by (auto simp: update_rsvp_def key_set_rsvp split: if_splits)

lemma update_rsvp_frame:
  "update_rsvp d uid eid st nt ts = Some d' \<Longrightarrow>
   users d' = users d \<and> events d' = events d \<and> users_seq d' = users_seq d \<and> rsvps_seq d' = rsvps_seq d"
  by (auto simp: update_rsvp_def split: if_splits)

lemma insert_rsvp_frame:
  "insert_rsvp d uid eid st nt ts = Some d' \<Longrightarrow>
   users d' = users d \<and> events d' = events d \<and> users_seq d' = users_seq d"
  by (auto simp: insert_rsvp_def Let_def split: if_splits)

lemma update_rsvp_unique:
  "update_rsvp d uid eid st nt ts = Some d' \<Longrightarrow> rsvps_unique d \<Longrightarrow> rsvps_unique d'"
  by (simp add: rsvps_unique_def update_rsvp_keys)

lemma insert_rsvp_unique:
  "insert_rsvp d uid eid st nt ts = Some d' \<Longrightarrow> rsvps_unique d \<Longrightarrow> rsvps_unique d'"
  by (auto simp: insert_rsvp_def Let_def rsvps_unique_def rsvp_key_def split: if_splits)

lemma split_at_key:
  "distinct (map rsvp_key rs) \<Longrightarrow> find (\<lambda>r. rsvp_key r = k) rs = Some x \<Longrightarrow>
   \<exists>xs ys. rs = xs @ x # ys \<and> rsvp_key x = k \<and> (\<forall>r \<in> set (xs @ ys). rsvp_key r \<noteq> k)"
proof (induction rs)
  case Nil
  then show ?case by simp
next
  case (Cons r rs)
  show ?case
  proof (cases "rsvp_key r = k")
    case True
    with Cons.prems have "r = x" and "\<forall>r \<in> set rs. rsvp_key r \<noteq> k"
      by (auto simp: image_iff)
    with True have "r # rs = [] @ x # rs \<and> rsvp_key x = k \<and> (\<forall>r \<in> set ([] @ rs). rsvp_key r \<noteq> k)"
      by simp
    then show ?thesis by blast
  next
    case False
    with Cons obtain xs ys where "rs = xs @ x # ys" "rsvp_key x = k"
      "\<forall>r \<in> set (xs @ ys). rsvp_key r \<noteq> k" by auto
    with False have "r # rs = (r # xs) @ x # ys \<and> rsvp_key x = k \<and>
      (\<forall>r \<in> set ((r # xs) @ ys). rsvp_key r \<noteq> k)" by simp
    then show ?thesis by blast
  qed
qed

lemma map_upd_other:
  "\<forall>r \<in> set rs. rsvp_key r \<noteq> k \<Longrightarrow> map (\<lambda>r. if rsvp_key r = k then g r else r) rs = rs"
  by (induction rs) auto

lemma rsvp_write_Some:
  "status_check (status b) \<Longrightarrow> \<exists>d'. rsvp_write en uid b d = Some d'"
  by (auto simp: rsvp_write_def update_rsvp_def insert_rsvp_def Let_def find_rsvp_None
           split: option.splits)

lemma rsvp_write_frame:
  "rsvp_write en uid b d = Some d' \<Longrightarrow>
   users d' = users d \<and> events d' = events d \<and> users_seq d' = users_seq d"
  by (auto simp: rsvp_write_def split: option.splits
           dest: update_rsvp_frame insert_rsvp_frame)

lemma rsvp_write_unique:
  "rsvp_write en uid b d = Some d' \<Longrightarrow> rsvps_unique d \<Longrightarrow> rsvps_unique d'"
  by (auto simp: rsvp_write_def split: option.splits
           dest: update_rsvp_unique insert_rsvp_unique)

lemma rsvp_write_update_shape:
  assumes uniq: "rsvps_unique d" and f: "find_rsvp d uid (eventId b) = Some x"
    and w: "rsvp_write en uid b d = Some d'"
  shows "\<exists>xs ys. rsvps d = xs @ x # ys \<and> rsvp_key x = (uid, eventId b) \<and>
           (\<forall>r \<in> set (xs @ ys). rsvp_key r \<noteq> (uid, eventId b)) \<and>
           rsvps d' = xs @ set_rsvp (status b) (or_null (body_notes b)) (current_timestamp en) x # ys \<and>
           rsvps_seq d' = rsvps_seq d"
proof -
  from w f have u: "update_rsvp d uid (eventId b) (status b) (or_null (body_notes b))
                     (current_timestamp en) = Some d'"
    by (simp add: rsvp_write_def)
  from split_at_key [OF uniq [unfolded rsvps_unique_def] f [unfolded find_rsvp_def]]
  obtain xs ys where s: "rsvps d = xs @ x # ys" "rsvp_key x = (uid, eventId b)"
    "\<forall>r \<in> set (xs @ ys). rsvp_key r \<noteq> (uid, eventId b)" by blast
  from s(3) have "\<forall>r \<in> set xs. rsvp_key r \<noteq> (uid, eventId b)" "\<forall>r \<in> set ys. rsvp_key r \<noteq> (uid, eventId b)"
    by auto
  then have "rsvps d' = xs @ set_rsvp (status b) (or_null (body_notes b)) (current_timestamp en) x # ys"
    unfolding update_rsvp_rows [OF u] s(1) using s(2) by (simp add: map_upd_other)
  with s update_rsvp_frame [OF u] show ?thesis by blast
qed

lemma rsvp_write_insert_shape:
  assumes f: "find_rsvp d uid (eventId b) = None" and w: "rsvp_write en uid b d = Some d'"
  shows "(\<forall>r \<in> set (rsvps d). rsvp_key r \<noteq> (uid, eventId b)) \<and>
         rsvps_seq d' = next_id (rsvps_seq d) (map r_id (rsvps d)) \<and>
         rsvps d' = rsvps d @
           [\<lparr>r_id = rsvps_seq d', user_id = uid, event_id = eventId b, r_status = status b,
             rsvp_date = current_timestamp en, r_notes = or_null (body_notes b)\<rparr>]"
proof -
  from w f have "insert_rsvp d uid (eventId b) (status b) (or_null (body_notes b))
                     (current_timestamp en) = Some d'"
    by (simp add: rsvp_write_def)
  then show ?thesis
    by (auto simp: insert_rsvp_def Let_def image_iff split: if_splits)
qed

lemma rsvp_write_find:
  assumes w: "rsvp_write en uid b d = Some d'"
  shows "\<exists>row. find_rsvp d' uid (eventId b) = Some row \<and> r_status row = status b \<and>
           r_notes row = or_null (body_notes b) \<and> rsvp_date row = current_timestamp en"
proof (cases "find_rsvp d uid (eventId b)")
  case None
  from None have "find (\<lambda>r. rsvp_key r = (uid, eventId b)) (rsvps d) = None"
    by (simp add: find_rsvp_def)
  with rsvp_write_insert_shape [OF None w] show ?thesis
    by (simp add: find_rsvp_def find_app rsvp_key_def)
next
  case (Some x)
  with w have u: "update_rsvp d uid (eventId b) (status b) (or_null (body_notes b))
                     (current_timestamp en) = Some d'"
    by (simp add: rsvp_write_def)
  have "\<And>rs. find (\<lambda>r. rsvp_key r = (uid, eventId b)) rs = Some x \<Longrightarrow>
      find (\<lambda>r. rsvp_key r = (uid, eventId b))
        (map (\<lambda>r. if rsvp_key r = (uid, eventId b)
                   then set_rsvp (status b) (or_null (body_notes b)) (current_timestamp en) r else r) rs)
      = Some (set_rsvp (status b) (or_null (body_notes b)) (current_timestamp en) x)"
    subgoal for rs by (induction rs) (auto simp: key_set_rsvp)
    done
  from this [OF Some [unfolded find_rsvp_def]] show ?thesis
    unfolding find_rsvp_def update_rsvp_rows [OF u] by (simp add: set_rsvp_def)
qed

lemma rsvp_write_count_exact:
  assumes w: "rsvp_write en uid b d = Some d'" and uniq: "rsvps_unique d"
  shows "count_attending d' e +
           (case find_rsvp d uid (eventId b) of None \<Rightarrow> 0
            | Some x \<Rightarrow> if attending_at e x then 1 else 0)
         = count_attending d e + (if eventId b = e \<and> status b = ''attending'' then 1 else 0)"
proof (cases "find_rsvp d uid (eventId b)")
  case None
  from rsvp_write_insert_shape [OF None w] show ?thesis
    by (simp add: None count_attending_alt attending_at_def)
next
  case (Some x)
  from rsvp_write_update_shape [OF uniq Some w] obtain xs ys where
    "rsvps d = xs @ x # ys" "rsvp_key x = (uid, eventId b)"
    "rsvps d' = xs @ set_rsvp (status b) (or_null (body_notes b)) (current_timestamp en) x # ys"
    by blast
  then show ?thesis
    by (simp add: Some count_attending_alt) (simp add: attending_at_def set_rsvp_def rsvp_key_def)
qed

lemma rsvp_write_count:
  assumes "rsvp_write en uid b d = Some d'" and "rsvps_unique d"
  shows "count_attending d' e \<le>
         (if eventId b = e \<and> status b = ''attending'' then Suc (count_attending d e)
          else count_attending d e)"
  using rsvp_write_count_exact [OF assms, of e] by (simp split: if_splits)

subsection \<open>The handler: what a request can do to the store\<close>

text \<open>
  Either the request is turned down before the write and the store is untouched, or it
  passed every check and the store is the one \<open>rsvp_write\<close> produced; then the response
  is the one of \<open>getRSVPDetails\<close>.
\<close>

lemma upsertRSVP_effect:
  assumes "upsertRSVP en uid b d = (r, d')"
  shows "(d' = d \<and> \<not> is_success r \<and> r \<noteq> Failure 500 ''RSVP saved but fetch failed'') \<or>
         (\<not> store_fails en FindExisting \<and> \<not> store_fails en WriteRSVP \<and>
          rsvp_write en uid b d = Some d' \<and> r = fst (getRSVPDetails en uid (eventId b) d'))"
  using assms
  by (auto simp: upsertRSVP_def rsvp_write_def getRSVPDetails_def
           split: if_splits option.splits)

lemma post_rsvp_effect:
  assumes "post_rsvp en sess b d = (r, d')"
  shows "(d' = d \<and> \<not> is_success r \<and> r \<noteq> Failure 500 ''RSVP saved but fetch failed'') \<or>
         (\<exists>u ev. sess = Some u \<and> s_id u \<noteq> 0 \<and> s_username u \<noteq> [] \<and> validateRSVP b = [] \<and>
            \<not> store_fails en FetchEvent \<and>
            fetch_active_event d (eventId b) = Some ev \<and>
            \<not> date_le_now (event_date ev) (now en) \<and>
            (status b = ''attending'' \<and> js_truthy (max_attendees ev) \<longrightarrow>
               \<not> store_fails en CountAttending \<and>
               \<not> count_ge (count_attending d (eventId b)) (max_attendees ev)) \<and>
            \<not> store_fails en FindExisting \<and> \<not> store_fails en WriteRSVP \<and>
            rsvp_write en (s_id u) b d = Some d' \<and>
            r = fst (getRSVPDetails en (s_id u) (eventId b) d'))"
proof (cases "authMiddleware sess :: rsvp_details option response + session_user")
  case (Inl x)
  then show ?thesis using assms authMiddleware_Inl [OF Inl]
    by (auto simp: post_rsvp_def)
next
  case (Inr u)
  then have sess: "sess = Some u" "s_id u \<noteq> 0" "s_username u \<noteq> []"
    by (simp_all add: authMiddleware_Inr)
  show ?thesis
  proof (cases "validateRSVP b")
    case (Cons e es)
    then show ?thesis using assms Inr by (auto simp: post_rsvp_def)
  next
    case Nil
    show ?thesis
    proof (cases "store_fails en FetchEvent")
      case True
      then show ?thesis using assms Inr Nil by (auto simp: post_rsvp_def)
    next
      case False
      show ?thesis
      proof (cases "fetch_active_event d (eventId b)")
        case None
        then show ?thesis using assms Inr Nil False by (auto simp: post_rsvp_def)
      next
        case (Some ev)
        consider (past) "date_le_now (event_date ev) (now en)"
          | (cap) "\<not> date_le_now (event_date ev) (now en)" "status b = ''attending'' \<and> js_truthy (max_attendees ev)"
              "store_fails en CountAttending \<or> count_ge (count_attending d (eventId b)) (max_attendees ev)"
          | (go) "\<not> date_le_now (event_date ev) (now en)"
              "status b = ''attending'' \<and> js_truthy (max_attendees ev) \<longrightarrow>
               \<not> store_fails en CountAttending \<and>
               \<not> count_ge (count_attending d (eventId b)) (max_attendees ev)"
              "upsertRSVP en (s_id u) b d = (r, d')"
          using assms Inr Nil False Some by (auto simp: post_rsvp_def split: if_splits)
        then show ?thesis
        proof cases
          case past
          then show ?thesis using assms Inr Nil False Some by (auto simp: post_rsvp_def)
        next
          case cap
          then show ?thesis using assms Inr Nil False Some by (auto simp: post_rsvp_def split: if_splits)
        next
          case go
          from upsertRSVP_effect [OF go(3)] show ?thesis
          proof
            assume "d' = d \<and> \<not> is_success r \<and> r \<noteq> Failure 500 ''RSVP saved but fetch failed''"
            then show ?thesis by simp
          next
            assume w: "\<not> store_fails en FindExisting \<and> \<not> store_fails en WriteRSVP \<and>
                rsvp_write en (s_id u) b d = Some d' \<and> r = fst (getRSVPDetails en (s_id u) (eventId b) d')"
            have "sess = Some u \<and> s_id u \<noteq> 0 \<and> s_username u \<noteq> [] \<and> validateRSVP b = [] \<and>
            \<not> store_fails en FetchEvent \<and>
            fetch_active_event d (eventId b) = Some ev \<and>
            \<not> date_le_now (event_date ev) (now en) \<and>
            (status b = ''attending'' \<and> js_truthy (max_attendees ev) \<longrightarrow>
               \<not> store_fails en CountAttending \<and>
               \<not> count_ge (count_attending d (eventId b)) (max_attendees ev)) \<and>
            \<not> store_fails en FindExisting \<and> \<not> store_fails en WriteRSVP \<and>
            rsvp_write en (s_id u) b d = Some d' \<and>
            r = fst (getRSVPDetails en (s_id u) (eventId b) d')"
              using sess Nil False Some go(1,2) w by simp
            then show ?thesis by blast
          qed
        qed
      qed
    qed
  qed
qed

lemma post_rsvp_cases:
  assumes "post_rsvp en sess b d = (r, d')"
  obtains (rejected) "d' = d" "\<not> is_success r" "r \<noteq> Failure 500 ''RSVP saved but fetch failed''"
   | (written) u ev where "sess = Some u" "s_id u \<noteq> 0" "s_username u \<noteq> []"
       "validateRSVP b = []" "\<not> store_fails en FetchEvent"
       "fetch_active_event d (eventId b) = Some ev"
       "\<not> date_le_now (event_date ev) (now en)"
       "status b = ''attending'' \<and> js_truthy (max_attendees ev) \<longrightarrow>
          \<not> store_fails en CountAttending \<and>
          \<not> count_ge (count_attending d (eventId b)) (max_attendees ev)"
       "\<not> store_fails en FindExisting" "\<not> store_fails en WriteRSVP"
       "rsvp_write en (s_id u) b d = Some d'"
       "r = fst (getRSVPDetails en (s_id u) (eventId b) d')"
  using post_rsvp_effect [OF assms] by (elim disjE exE conjE) (erule (2) rejected, erule (11) written)

lemma post_rsvp_accept:
  assumes "sess = Some u" "s_id u \<noteq> 0" "s_username u \<noteq> []" "validateRSVP b = []"
    and "\<not> store_fails en FetchEvent" "\<not> store_fails en CountAttending"
        "\<not> store_fails en FindExisting" "\<not> store_fails en WriteRSVP"
        "\<not> store_fails en FetchDetails"
    and "fetch_active_event d (eventId b) = Some ev"
        "\<not> date_le_now (event_date ev) (now en)"
    and "status b = ''attending'' \<and> js_truthy (max_attendees ev) \<longrightarrow>
           \<not> count_ge (count_attending d (eventId b)) (max_attendees ev)"
  obtains d' where "rsvp_write en (s_id u) b d = Some d'"
    "post_rsvp en sess b d =
       (Success 200 ''RSVP saved successfully'' (join_details d' (s_id u) (eventId b)), d')"
proof -
  from assms(4) have "status_check (status b)" by (simp add: validateRSVP_Nil)
  from rsvp_write_Some [OF this] obtain d' where w: "rsvp_write en (s_id u) b d = Some d'"
    by blast
  from w assms(7-9) have
    "upsertRSVP en (s_id u) b d =
       (Success 200 ''RSVP saved successfully'' (join_details d' (s_id u) (eventId b)), d')"
    by (auto simp: upsertRSVP_def rsvp_write_def getRSVPDetails_def split: option.splits)
  with assms have "post_rsvp en sess b d =
       (Success 200 ''RSVP saved successfully'' (join_details d' (s_id u) (eventId b)), d')"
    by (auto simp: post_rsvp_def authMiddleware_def)
  with w that show ?thesis by blast
qed

lemma post_rsvp_past:
  assumes "sess = Some u" "s_id u \<noteq> 0" "s_username u \<noteq> []" "validateRSVP b = []"
    and "\<not> store_fails en FetchEvent"
    and "fetch_active_event d (eventId b) = Some ev"
    and "event_date ev = Instant t" "t \<le> now en"
  shows "post_rsvp en sess b d = (Failure 400 ''Cannot RSVP to past events'', d)"
  using assms by (simp add: post_rsvp_def authMiddleware_def date_le_now_def)

lemma post_rsvp_full:
  assumes "sess = Some u" "s_id u \<noteq> 0" "s_username u \<noteq> []" "validateRSVP b = []"
    and "\<not> store_fails en FetchEvent" "\<not> store_fails en CountAttending"
    and "fetch_active_event d (eventId b) = Some ev"
        "\<not> date_le_now (event_date ev) (now en)"
    and "status b = ''attending''" "js_truthy (max_attendees ev)"
        "count_ge (count_attending d (eventId b)) (max_attendees ev)"
  shows "post_rsvp en sess b d = (Failure 400 ''Event is at full capacity'', d)"
  using assms by (simp add: post_rsvp_def authMiddleware_def)

lemma post_rsvp_capacity_inv:
  assumes C: "1 \<le> C" and inv: "capacity_inv eid C d"
  shows "capacity_inv eid C (snd (post_rsvp en sess b d))"
proof -
  obtain r d' where p: "post_rsvp en sess b d = (r, d')" by (cases "post_rsvp en sess b d")
  from p show ?thesis
  proof (cases rule: post_rsvp_cases)
    case rejected
    with p inv show ?thesis by simp
  next
    case (written u ev)
    note ev = written(6) and cap = written(8) and w = written(11)
    from inv have uniq: "rsvps_unique d" by (simp add: capacity_inv_def)
    have cnt: "int (count_attending d' eid) \<le> C"
    proof (cases "eventId b = eid \<and> status b = ''attending''")
      case True
      from fetch_active_event_Some [OF ev] True inv have "max_attendees ev = Some C"
        by (auto simp: capacity_inv_def)
      with cap True C have "int (count_attending d eid) < C"
        by (auto simp: js_truthy_def count_ge_def)
      moreover from rsvp_write_count [OF w uniq, of eid] True
      have "count_attending d' eid \<le> Suc (count_attending d eid)" by simp
      ultimately show ?thesis by linarith
    next
      case False
      with rsvp_write_count [OF w uniq, of eid]
      have "count_attending d' eid \<le> count_attending d eid" by auto
      with inv show ?thesis by (simp add: capacity_inv_def)
    qed
    from rsvp_write_frame [OF w] rsvp_write_unique [OF w uniq] cnt inv p
    show ?thesis by (simp add: capacity_inv_def)
  qed
qed

lemma run_rsvps_capacity_inv:
  "1 \<le> C \<Longrightarrow> capacity_inv eid C d \<Longrightarrow> capacity_inv eid C (run_rsvps d reqs)"
  by (induction d reqs rule: run_rsvps.induct) (simp_all add: post_rsvp_capacity_inv)

subsection \<open>The sample store, evaluated\<close>

lemma john_attending_eq:
  "john_attending =
     \<lparr>users = [], events = [workshop (Some 1)],
      rsvps = [\<lparr>r_id = 1, user_id = 2, event_id = 1, r_status = ''attending'',
                rsvp_date = 1000, r_notes = None\<rparr>],
      users_seq = 0, rsvps_seq = 1\<rparr>"
  by (simp add: john_attending_def example_defs rsvp_defs)

lemma scenario_eq:
  "scenario =
    [(Success 200 ''RSVP saved successfully''
        (Some \<lparr>rsvp = \<lparr>r_id = 1, user_id = 2, event_id = 1, r_status = ''attending'',
                       rsvp_date = 1000, r_notes = None\<rparr>,
               d_title = ''Team Building Workshop'', d_event_date = Instant 5000,
               d_location = ''Corporate Training Center''\<rparr>),
      john_attending),
     (Failure 400 ''Event is at full capacity'', john_attending),
     (Success 200 ''RSVP saved successfully''
        (Some \<lparr>rsvp = \<lparr>r_id = 1, user_id = 2, event_id = 1, r_status = ''maybe'',
                       rsvp_date = 3000, r_notes = None\<rparr>,
               d_title = ''Team Building Workshop'', d_event_date = Instant 5000,
               d_location = ''Corporate Training Center''\<rparr>),
      john_attending\<lparr>rsvps := [\<lparr>r_id = 1, user_id = 2, event_id = 1, r_status = ''maybe'',
                                rsvp_date = 3000, r_notes = None\<rparr>]\<rparr>),
     (Success 200 ''RSVP saved successfully''
        (Some \<lparr>rsvp = \<lparr>r_id = 2, user_id = 3, event_id = 1, r_status = ''attending'',
                       rsvp_date = 4000, r_notes = None\<rparr>,
               d_title = ''Team Building Workshop'', d_event_date = Instant 5000,
               d_location = ''Corporate Training Center''\<rparr>),
      john_attending\<lparr>rsvps := [\<lparr>r_id = 1, user_id = 2, event_id = 1, r_status = ''maybe'',
                                rsvp_date = 3000, r_notes = None\<rparr>,
                               \<lparr>r_id = 2, user_id = 3, event_id = 1, r_status = ''attending'',
                                rsvp_date = 4000, r_notes = None\<rparr>],
                     rsvps_seq := 2\<rparr>)]"
  by (simp add: scenario_def john_attending_eq example_defs rsvp_defs)

section \<open>The claims\<close>

subsection \<open>C1: the attending count stays within the capacity\<close>

text \<open>
  Claim C1. An event has a finite capacity \<open>C\<close>; the event routes store a capacity only
  when it is at least 1 (\<open>stored_capacity_positive\<close>). If the \<open>(user, event)\<close> rows are
  unique (the schema's constraint) and at most \<open>C\<close> rows of the event are attending, as in
  a store where the event has no RSVP yet, then after any list of RSVP requests served one
  after the other (any user, any status, valid or not, with or without store failures)
  at most \<open>C\<close> rows of the event are attending. Every prefix of the list is such a list,
  so the bound holds after each request.
\<close>

theorem capacity_never_exceeded:
  assumes "1 \<le> C" and "rsvps_unique d"
    and "\<forall>ev \<in> set (events d). e_id ev = eid \<longrightarrow> max_attendees ev = Some C"
    and "int (count_attending d eid) \<le> C"
  shows "int (count_attending (run_rsvps d reqs) eid) \<le> C"
  using run_rsvps_capacity_inv [of C eid d reqs] assms by (simp add: capacity_inv_def)

text \<open>
  The theorem at a store with one event of capacity 1 and two attending requests.
\<close>

theorem capacity_never_exceeded_witness:
  "rsvps_unique (store_of (workshop (Some 1))) \<and>
   count_attending (store_of (workshop (Some 1))) 1 = 0 \<and>
   int (count_attending
     (run_rsvps (store_of (workshop (Some 1)))
        [(env_at 1000, Some john, respond ''attending''),
         (env_at 2000, Some jane, respond ''attending'')]) 1) \<le> 1"
  using capacity_never_exceeded [where C = 1 and eid = 1 and d = "store_of (workshop (Some 1))"
      and reqs = "[(env_at 1000, Some john, respond ''attending''),
                   (env_at 2000, Some jane, respond ''attending'')]"]
  by (simp add: example_defs rsvps_unique_def count_attending_def)

subsection \<open>C2: repeating a request\<close>

text \<open>
  Claim C2, as amended. As stated the claim fails for an attending request that fills
  the event: the count check counts the requester's own row, so the repetition is turned
  down. What holds: when the first request succeeds
  and the second one, with the same session and body, meets no store failure, finds the
  event still in the future and (for an attending request to an event with a capacity)
  finds the attending count still below the capacity, then the second request succeeds,
  the store holds exactly one row for (user, event), that row carries the requested
  status, the note (\<open>notes || null\<close>) and the timestamp of the second request, and no row
  has been added.
\<close>

theorem repeat_upsert_idempotent:
  assumes uniq: "rsvps_unique d"
    and first: "post_rsvp en1 sess b d = (r1, d1)" "is_success r1"
    and u: "sess = Some u"
    and nofault: "\<forall>c. \<not> store_fails en2 c"
    and ev: "fetch_active_event d (eventId b) = Some ev"
            "\<not> date_le_now (event_date ev) (now en2)"
    and room: "status b = ''attending'' \<and> js_truthy (max_attendees ev) \<longrightarrow>
                 \<not> count_ge (count_attending d1 (eventId b)) (max_attendees ev)"
    and second: "post_rsvp en2 sess b d1 = (r2, d2)"
  shows "r2 = Success 200 ''RSVP saved successfully'' (join_details d2 (s_id u) (eventId b)) \<and>
         map (\<lambda>r. (r_status r, r_notes r, rsvp_date r))
             (filter (\<lambda>r. rsvp_key r = (s_id u, eventId b)) (rsvps d2))
           = [(status b, or_null (body_notes b), current_timestamp en2)] \<and>
         length (rsvps d2) = length (rsvps d1)"
  using first(1)
proof (cases rule: post_rsvp_cases)
  case rejected
  with first(2) show ?thesis by simp
next
  case (written u' ev')
  with u have w1: "rsvp_write en1 (s_id u) b d = Some d1"
    and sess: "s_id u \<noteq> 0" "s_username u \<noteq> []" and valid: "validateRSVP b = []" by auto
  from rsvp_write_unique [OF w1 uniq] have uniq1: "rsvps_unique d1" .
  from rsvp_write_frame [OF w1] ev(1) have ev1: "fetch_active_event d1 (eventId b) = Some ev"
    by (simp add: fetch_active_event_def)
  from nofault have nf: "\<not> store_fails en2 FetchEvent" "\<not> store_fails en2 CountAttending"
    "\<not> store_fails en2 FindExisting" "\<not> store_fails en2 WriteRSVP"
    "\<not> store_fails en2 FetchDetails" by simp_all
  from post_rsvp_accept [OF u sess valid nf ev1 ev(2) room] second
  have w2: "rsvp_write en2 (s_id u) b d1 = Some d2"
    and r2: "r2 = Success 200 ''RSVP saved successfully'' (join_details d2 (s_id u) (eventId b))"
    by auto
  from rsvp_write_find [OF w1] obtain row where "find_rsvp d1 (s_id u) (eventId b) = Some row"
    by blast
  from rsvp_write_update_shape [OF uniq1 this w2] obtain xs ys where
    "rsvps d1 = xs @ row # ys"
    "\<forall>r \<in> set (xs @ ys). rsvp_key r \<noteq> (s_id u, eventId b)"
    "rsvp_key row = (s_id u, eventId b)"
    "rsvps d2 = xs @ set_rsvp (status b) (or_null (body_notes b)) (current_timestamp en2) row # ys"
    by blast
  then have "map (\<lambda>r. (r_status r, r_notes r, rsvp_date r))
             (filter (\<lambda>r. rsvp_key r = (s_id u, eventId b)) (rsvps d2))
           = [(status b, or_null (body_notes b), current_timestamp en2)]"
    "length (rsvps d2) = length (rsvps d1)"
    by (simp_all add: key_set_rsvp filter_empty_conv [THEN iffD2]) (simp add: set_rsvp_def)
  with r2 show ?thesis by simp
qed

text \<open>
  The theorem at a \<open>maybe\<close> response submitted twice.
\<close>

theorem repeat_upsert_idempotent_witness:
  "is_success (fst (post_rsvp (env_at 1000) (Some john) (respond ''maybe'')
                      (store_of (workshop (Some 1))))) \<and>
   fst (post_rsvp (env_at 2000) (Some john) (respond ''maybe'')
          (snd (post_rsvp (env_at 1000) (Some john) (respond ''maybe'')
                  (store_of (workshop (Some 1))))))
     = Success 200 ''RSVP saved successfully''
         (Some \<lparr>rsvp = \<lparr>r_id = 1, user_id = 2, event_id = 1, r_status = ''maybe'',
                        rsvp_date = 2000, r_notes = None\<rparr>,
                d_title = ''Team Building Workshop'', d_event_date = Instant 5000,
                d_location = ''Corporate Training Center''\<rparr>) \<and>
   rsvps (snd (post_rsvp (env_at 2000) (Some john) (respond ''maybe'')
          (snd (post_rsvp (env_at 1000) (Some john) (respond ''maybe'')
                  (store_of (workshop (Some 1)))))))
     = [\<lparr>r_id = 1, user_id = 2, event_id = 1, r_status = ''maybe'',
         rsvp_date = 2000, r_notes = None\<rparr>]"
  using repeat_upsert_idempotent [where d = "store_of (workshop (Some 1))"
      and ?en1.0 = "env_at 1000" and ?en2.0 = "env_at 2000" and sess = "Some john" and u = john
      and b = "respond ''maybe''" and ev = "workshop (Some 1)"
      and ?r1.0 = "fst (post_rsvp (env_at 1000) (Some john) (respond ''maybe'')
                      (store_of (workshop (Some 1))))"
      and ?d1.0 = "snd (post_rsvp (env_at 1000) (Some john) (respond ''maybe'')
                      (store_of (workshop (Some 1))))"
      and ?r2.0 = "fst (post_rsvp (env_at 2000) (Some john) (respond ''maybe'')
          (snd (post_rsvp (env_at 1000) (Some john) (respond ''maybe'')
                  (store_of (workshop (Some 1))))))"
      and ?d2.0 = "snd (post_rsvp (env_at 2000) (Some john) (respond ''maybe'')
          (snd (post_rsvp (env_at 1000) (Some john) (respond ''maybe'')
                  (store_of (workshop (Some 1))))))"]
  by (simp add: example_defs rsvp_defs rsvps_unique_def)

text \<open>
  The claim as stated fails: with capacity 1, the first attending request of a user
  succeeds and the identical second one is answered "Event is at full capacity".
\<close>

theorem repeat_attending_counterexample:
  "is_success (fst (post_rsvp (env_at 1000) (Some john) (respond ''attending'')
                      (store_of (workshop (Some 1))))) \<and>
   fst (post_rsvp (env_at 2000) (Some john) (respond ''attending'')
          (snd (post_rsvp (env_at 1000) (Some john) (respond ''attending'')
                  (store_of (workshop (Some 1))))))
     = Failure 400 ''Event is at full capacity''"
  by (simp add: example_defs rsvp_defs)

subsection \<open>C3: past events\<close>

text \<open>
  Claim C3. The handler's comment reads "Check if event is in the future", and for a
  stored date that parses the check does what the claim says (\<open>post_rsvp_past\<close>). For a
  stored date that does not parse, \<open>new Date(event.event_date) <= new Date()\<close> compares
  NaN and is false: the event is not in the future, yet the request passes the check and
  the RSVP is written. The same comparison is the custom check of \<open>validateEvent\<close>, so it
  does not keep such a date out of the store. The statement below evaluates the handler
  at such an event: an attending request at instant 6000 succeeds and inserts a row.
\<close>

theorem invalid_date_event_accepted:
  "eventDate_custom InvalidDate 1000 = [] \<and>
   event_date (undated (workshop (Some 1))) = InvalidDate \<and>
   e_status (undated (workshop (Some 1))) = ''active'' \<and>
   date_le_now (event_date (undated (workshop (Some 1)))) (now (env_at 6000)) = False \<and>
   post_rsvp (env_at 6000) (Some john) (respond ''attending'')
       (store_of (undated (workshop (Some 1))))
     = (Success 200 ''RSVP saved successfully''
          (Some \<lparr>rsvp = \<lparr>r_id = 1, user_id = 2, event_id = 1, r_status = ''attending'',
                         rsvp_date = 6000, r_notes = None\<rparr>,
                 d_title = ''Team Building Workshop'', d_event_date = InvalidDate,
                 d_location = ''Corporate Training Center''\<rparr>),
        \<lparr>users = [], events = [undated (workshop (Some 1))],
         rsvps = [\<lparr>r_id = 1, user_id = 2, event_id = 1, r_status = ''attending'',
                   rsvp_date = 6000, r_notes = None\<rparr>],
         users_seq = 0, rsvps_seq = 1\<rparr>)"
  by (simp add: eventDate_custom_def undated_def example_defs rsvp_defs)

subsection \<open>C4: missing and inactive events\<close>

text \<open>
  Claim C4. If no row of \<open>events\<close> has the requested id with status \<open>active\<close>, a validated
  request of an authenticated user is answered 404 "Event not found or inactive" and the
  store is unchanged. Nothing is assumed about dates or capacities: the check comes first.
\<close>

theorem inactive_event_rejected:
  assumes "sess = Some u" "s_id u \<noteq> 0" "s_username u \<noteq> []" "validateRSVP b = []"
    and "\<not> store_fails en FetchEvent"
    and "\<forall>ev \<in> set (events d). e_id ev = eventId b \<longrightarrow> e_status ev \<noteq> ''active''"
  shows "post_rsvp en sess b d = (Failure 404 ''Event not found or inactive'', d)"
proof -
  from assms(6) have "fetch_active_event d (eventId b) = None"
    by (auto simp: fetch_active_event_def find_None_iff)
  with assms show ?thesis by (simp add: post_rsvp_def authMiddleware_def)
qed

text \<open>
  The theorem at a cancelled event that is also in the past: the answer is 404, not the
  past-event failure.
\<close>

theorem inactive_event_rejected_witness:
  "date_le_now (event_date (cancelled (workshop (Some 1)))) (now (env_at 6000)) \<and>
   post_rsvp (env_at 6000) (Some john) (respond ''attending'')
       (store_of (cancelled (workshop (Some 1))))
     = (Failure 404 ''Event not found or inactive'', store_of (cancelled (workshop (Some 1))))"
  using inactive_event_rejected [where sess = "Some john" and u = john and en = "env_at 6000"
      and b = "respond ''attending''" and d = "store_of (cancelled (workshop (Some 1)))"]
  by (simp add: example_defs cancelled_def validateRSVP_def rsvp_statuses_def date_le_now_def)

subsection \<open>C5: deleting an RSVP\<close>

text \<open>
  Claim C5. For an authenticated user and a store call that does not fail: when no row
  for (user, event) exists the answer is 404 "RSVP not found" and the store is unchanged
  (also when the path segment denotes no integer); when one exists the answer is 200
  "RSVP deleted successfully", the rows for (user, event) are gone, every other row and
  the other relations are unchanged, and under the uniqueness constraint exactly one row
  has been removed.
\<close>

theorem delete_rsvp_outcome:
  assumes "sess = Some u" "s_id u \<noteq> 0" "s_username u \<noteq> []"
    and "\<not> store_fails en DeleteRow"
  shows "delete_rsvp en sess None d = (Failure 404 ''RSVP not found'', d) \<and>
         (find_rsvp d (s_id u) eid = None \<longrightarrow>
            delete_rsvp en sess (Some eid) d = (Failure 404 ''RSVP not found'', d)) \<and>
         (find_rsvp d (s_id u) eid \<noteq> None \<longrightarrow>
            (\<exists>d'. delete_rsvp en sess (Some eid) d =
                     (Success 200 ''RSVP deleted successfully'' (), d') \<and>
                  rsvps d' = filter (\<lambda>r. rsvp_key r \<noteq> (s_id u, eid)) (rsvps d) \<and>
                  find_rsvp d' (s_id u) eid = None \<and>
                  users d' = users d \<and> events d' = events d \<and>
                  (rsvps_unique d \<longrightarrow> length (rsvps d') + 1 = length (rsvps d))))"
proof (intro conjI impI)
  from assms show "delete_rsvp en sess None d = (Failure 404 ''RSVP not found'', d)"
    by (simp add: delete_rsvp_def authMiddleware_def delete_rows_def)
next
  assume "find_rsvp d (s_id u) eid = None"
  then have "\<forall>r \<in> set (rsvps d). rsvp_key r \<noteq> (s_id u, eid)"
    by (simp add: find_rsvp_def find_None_iff)
  then have "filter (\<lambda>r. rsvp_key r \<noteq> (s_id u, eid)) (rsvps d) = rsvps d"
    by (simp add: filter_id_conv)
  with assms show "delete_rsvp en sess (Some eid) d = (Failure 404 ''RSVP not found'', d)"
    by (simp add: delete_rsvp_def authMiddleware_def delete_rows_def)
next
  assume "find_rsvp d (s_id u) eid \<noteq> None"
  then obtain x where x: "find_rsvp d (s_id u) eid = Some x" by blast
  then have "x \<in> set (rsvps d)" "rsvp_key x = (s_id u, eid)"
    by (auto simp: find_rsvp_def find_Some_iff)
  then have "length (filter (\<lambda>r. rsvp_key r \<noteq> (s_id u, eid)) (rsvps d)) < length (rsvps d)"
    by (auto intro: length_filter_less)
  with assms have del: "delete_rsvp en sess (Some eid) d =
      (Success 200 ''RSVP deleted successfully'' (), delete_rows d (s_id u) (Some eid))"
    by (simp add: delete_rsvp_def authMiddleware_def delete_rows_def Let_def)
  have one: "length (rsvps (delete_rows d (s_id u) (Some eid))) + 1 = length (rsvps d)"
    if "rsvps_unique d"
  proof -
    from split_at_key [OF that [unfolded rsvps_unique_def] x [unfolded find_rsvp_def]]
    obtain xs ys where "rsvps d = xs @ x # ys" "rsvp_key x = (s_id u, eid)"
      "\<forall>r \<in> set (xs @ ys). rsvp_key r \<noteq> (s_id u, eid)" by blast
    then show ?thesis by (simp add: delete_rows_def filter_id_conv [THEN iffD2])
  qed
  have "find_rsvp (delete_rows d (s_id u) (Some eid)) (s_id u) eid = None"
    by (simp add: find_rsvp_def find_None_iff delete_rows_def)
  with del one show "\<exists>d'. delete_rsvp en sess (Some eid) d =
                     (Success 200 ''RSVP deleted successfully'' (), d') \<and>
                  rsvps d' = filter (\<lambda>r. rsvp_key r \<noteq> (s_id u, eid)) (rsvps d) \<and>
                  find_rsvp d' (s_id u) eid = None \<and>
                  users d' = users d \<and> events d' = events d \<and>
                  (rsvps_unique d \<longrightarrow> length (rsvps d') + 1 = length (rsvps d))"
    by (simp add: delete_rows_def)
qed

text \<open>
  The theorem at the store where john attends: john's deletion succeeds and empties the
  table, jane's is answered 404.
\<close>

theorem delete_rsvp_outcome_witness:
  "delete_rsvp (env_at 2000) (Some john) (Some 1) john_attending
     = (Success 200 ''RSVP deleted successfully'' (), store_of (workshop (Some 1))\<lparr>rsvps_seq := 1\<rparr>) \<and>
   delete_rsvp (env_at 2000) (Some jane) (Some 1) john_attending
     = (Failure 404 ''RSVP not found'', john_attending)"
  using delete_rsvp_outcome [where sess = "Some john" and u = john and en = "env_at 2000"
      and d = john_attending and eid = 1]
    delete_rsvp_outcome [where sess = "Some jane" and u = jane and en = "env_at 2000"
      and d = john_attending and eid = 1]
  by (simp add: john_attending_eq)
     (simp add: example_defs delete_rsvp_def delete_rows_def authMiddleware_def rsvp_key_def)

subsection \<open>C6: the capacity scenario\<close>

text \<open>
  Claim C6. An active future event has capacity 1 and no attending row. A attends:
  success, one attending row. B attends: 400 "Event is at full capacity", store unchanged.
  A answers maybe: success, no row added, A's row now reads maybe, no attending row left.
  B attends: success, one attending row. A and B are any two authenticated users, the bodies any validated
  bodies with these statuses, the four requests meet no store failure and are served
  before the event's date.
\<close>

theorem capacity_scenario:
  assumes a: "s_id a \<noteq> 0" "s_username a \<noteq> []" and bb: "s_id bb \<noteq> 0" "s_username bb \<noteq> []"
    and att: "validateRSVP batt = []" "status batt = ''attending''" "eventId batt = eid"
    and may: "validateRSVP bmaybe = []" "status bmaybe = ''maybe''" "eventId bmaybe = eid"
    and envs: "\<forall>en \<in> set [en1, en2, en3, en4]. (\<forall>c. \<not> store_fails en c) \<and> now en < t"
    and ev: "fetch_active_event d eid = Some ev" "max_attendees ev = Some 1"
            "event_date ev = Instant t"
    and d: "rsvps_unique d" "count_attending d eid = 0"
    and p1: "post_rsvp en1 (Some a) batt d = (r1, d1)"
    and p2: "post_rsvp en2 (Some bb) batt d1 = (r2, d2)"
    and p3: "post_rsvp en3 (Some a) bmaybe d2 = (r3, d3)"
    and p4: "post_rsvp en4 (Some bb) batt d3 = (r4, d4)"
  shows "is_success r1 \<and> count_attending d1 eid = 1 \<and>
         r2 = Failure 400 ''Event is at full capacity'' \<and> d2 = d1 \<and>
         is_success r3 \<and> length (rsvps d3) = length (rsvps d2) \<and>
         (\<exists>row. find_rsvp d3 (s_id a) eid = Some row \<and> r_status row = ''maybe'') \<and>
         count_attending d3 eid = 0 \<and>
         is_success r4 \<and> count_attending d4 eid = 1"
proof -
  have nf: "\<not> store_fails en c" and fut: "\<not> date_le_now (event_date ev) (now en)"
    if "en \<in> set [en1, en2, en3, en4]" for en c
    using envs that ev(3) by (auto simp: date_le_now_def)
  have truthy: "js_truthy (max_attendees ev)" by (simp add: ev(2) js_truthy_def)
  have room: "\<not> count_ge 0 (max_attendees ev)"
    by (simp add: ev(2) count_ge_def)
  have old0: "(case find_rsvp s uid eid of None \<Rightarrow> 0
               | Some x \<Rightarrow> if attending_at eid x then 1 else 0) = (0::nat)"
    if "count_attending s eid = 0" for s uid
    using that by (auto split: option.splits dest: find_rsvp_Some count_zero_not_attending)
  have accept: "\<exists>s'. rsvp_write en (s_id u) b s = Some s' \<and> is_success (fst (post_rsvp en (Some u) b s))
                    \<and> snd (post_rsvp en (Some u) b s) = s'"
    if "en \<in> set [en1, en2, en3, en4]" "s_id u \<noteq> 0" "s_username u \<noteq> []"
       "validateRSVP b = []" "eventId b = eid" "fetch_active_event s eid = Some ev"
       "status b = ''attending'' \<longrightarrow> count_attending s eid = 0" for en u b s
  proof -
    from that(5,6) have e: "fetch_active_event s (eventId b) = Some ev" by simp
    from that(5,7) have r: "status b = ''attending'' \<and> js_truthy (max_attendees ev) \<longrightarrow>
           \<not> count_ge (count_attending s (eventId b)) (max_attendees ev)"
      using room by auto
    show ?thesis
      by (rule post_rsvp_accept [OF refl that(2,3,4) nf [OF that(1)] nf [OF that(1)]
            nf [OF that(1)] nf [OF that(1)] nf [OF that(1)] e fut [OF that(1)] r]) simp
  qed
  \<comment> \<open>first request\<close>
  from accept [of en1 a batt d] a att ev(1) d(2) p1
  have w1: "rsvp_write en1 (s_id a) batt d = Some d1" and s1: "is_success r1" by auto
  from rsvp_write_count_exact [OF w1 d(1), of eid] old0 [OF d(2)] att d(2)
  have c1: "count_attending d1 eid = 1" by simp
  from rsvp_write_unique [OF w1 d(1)] have u1: "rsvps_unique d1" .
  from rsvp_write_frame [OF w1] ev(1) have e1: "fetch_active_event d1 eid = Some ev"
    by (simp add: fetch_active_event_def)
  \<comment> \<open>second request\<close>
  have "post_rsvp en2 (Some bb) batt d1 = (Failure 400 ''Event is at full capacity'', d1)"
    by (rule post_rsvp_full [OF refl bb att(1) nf nf _ fut att(2) truthy])
       (simp_all add: att(3) e1 c1 ev(2) count_ge_def)
  with p2 have r2: "r2 = Failure 400 ''Event is at full capacity''" and d2: "d2 = d1" by auto
  \<comment> \<open>third request\<close>
  from accept [of en3 a bmaybe d1] a may e1 p3 d2
  have w3: "rsvp_write en3 (s_id a) bmaybe d1 = Some d3" and s3: "is_success r3" by auto
  from rsvp_write_find [OF w1] att obtain row where
    row: "find_rsvp d1 (s_id a) eid = Some row" "r_status row = ''attending''" by auto
  from find_rsvp_Some [OF row(1)] row(2) have "attending_at eid row"
    by (simp add: attending_at_def)
  with rsvp_write_count_exact [OF w3 u1, of eid] row(1) may c1
  have c3: "count_attending d3 eid = 0" by simp
  from rsvp_write_update_shape [OF u1 _ w3] row(1) may(3) d2
  have l3: "length (rsvps d3) = length (rsvps d2)" by auto
  from rsvp_write_unique [OF w3 u1] have u3: "rsvps_unique d3" .
  from rsvp_write_frame [OF w3] e1 have e3: "fetch_active_event d3 eid = Some ev"
    by (simp add: fetch_active_event_def)
  \<comment> \<open>fourth request\<close>
  from accept [of en4 bb batt d3] bb att e3 c3 p4
  have w4: "rsvp_write en4 (s_id bb) batt d3 = Some d4" and s4: "is_success r4" by auto
  from rsvp_write_count_exact [OF w4 u3, of eid] old0 [OF c3] att c3
  have c4: "count_attending d4 eid = 1" by simp
  from rsvp_write_find [OF w3] may
  have m3: "\<exists>row. find_rsvp d3 (s_id a) eid = Some row \<and> r_status row = ''maybe''" by auto
  from s1 c1 r2 d2 s3 l3 m3 c3 s4 c4 show ?thesis by simp
qed

text \<open>
  The theorem at the sample store, with john as A and jane as B.
\<close>

theorem capacity_scenario_witness:
  "map (is_success \<circ> fst) scenario = [True, False, True, True] \<and>
   fst (scenario ! 1) = Failure 400 ''Event is at full capacity'' \<and>
   map (\<lambda>s. count_attending (snd s) 1) scenario = [1, 1, 0, 1]"
  using capacity_scenario [where a = john and bb = jane and batt = "respond ''attending''"
      and bmaybe = "respond ''maybe''" and eid = 1 and t = 5000
      and ?en1.0 = "env_at 1000" and ?en2.0 = "env_at 2000" and ?en3.0 = "env_at 3000"
      and ?en4.0 = "env_at 4000" and d = "store_of (workshop (Some 1))"
      and ev = "workshop (Some 1)"
      and ?r1.0 = "fst (scenario ! 0)" and ?d1.0 = "snd (scenario ! 0)"
      and ?r2.0 = "fst (scenario ! 1)" and ?d2.0 = "snd (scenario ! 1)"
      and ?r3.0 = "fst (scenario ! 2)" and ?d3.0 = "snd (scenario ! 2)"
      and ?r4.0 = "fst (scenario ! 3)" and ?d4.0 = "snd (scenario ! 3)"]
  by (simp add: scenario_eq john_attending_eq)
     (simp add: example_defs rsvp_defs rsvps_unique_def)

subsection \<open>C7: registering a used username or email\<close>

text \<open>
  Claim C7. If a stored user has the submitted username or the submitted email, the
  registration never succeeds and leaves the store as it was; when the body passes
  validation and the lookup does not fail, the answer is 409 "Username or email already
  exists" and the session is unchanged.
\<close>

theorem register_duplicate_rejected:
  assumes dup: "\<exists>row \<in> set (users d). username row = reg_username b \<or> email row = reg_email b"
  shows "fst (snd (register lib en sess b d)) = d \<and>
         \<not> is_success (fst (register lib en sess b d)) \<and>
         (validateRegistration lib b = [] \<and> \<not> store_fails en FindUser \<longrightarrow>
            register lib en sess b d = (Failure 409 ''Username or email already exists'', d, sess))"
proof -
  from dup have "find_user d (reg_username b) (reg_email b) \<noteq> None"
    by (simp add: find_user_None)
  then obtain row where "find_user d (reg_username b) (reg_email b) = Some row" by blast
  then show ?thesis
    by (simp add: register_def Let_def split: list.splits)
qed

text \<open>
  The theorem at a used username with a fresh email, and at a fresh username with a used
  email.
\<close>

theorem register_duplicate_rejected_witness:
  "validateRegistration sample_lib (signup ''john_doe'' ''other@example.com'') = [] \<and>
   register sample_lib (env_at 1000) None (signup ''john_doe'' ''other@example.com'') users_store
     = (Failure 409 ''Username or email already exists'', users_store, None) \<and>
   register sample_lib (env_at 1000) None (signup ''johnny'' ''john@example.com'') users_store
     = (Failure 409 ''Username or email already exists'', users_store, None)"
  using register_duplicate_rejected [where d = users_store and lib = sample_lib
      and en = "env_at 1000" and sess = None and b = "signup ''john_doe'' ''other@example.com''"]
    register_duplicate_rejected [where d = users_store and lib = sample_lib
      and en = "env_at 1000" and sess = None and b = "signup ''johnny'' ''john@example.com''"]
  by (simp add: auth_example_defs validateRegistration_def word_char_def)

subsection \<open>C8: what an upsert writes\<close>

text \<open>
  Claim C8, as amended. As stated the claim fails in its last part: when the final
  re-read of the row fails, the request is answered 500 "RSVP saved but fetch failed"
  although the row has been written. What
  holds, under the uniqueness constraint: no request changes \<open>users\<close> or \<open>events\<close>; a
  request that succeeds, or is answered "RSVP saved but fetch failed", has performed
  exactly one insert (the table is the old one with one new row at its end) or exactly
  one update (one row rewritten in place, all others as before); every other failed
  request leaves the whole store unchanged.
\<close>

theorem rsvp_upsert_frame:
  assumes p: "post_rsvp en sess b d = (r, d')" and uniq: "rsvps_unique d"
  shows "users d' = users d \<and> events d' = events d \<and> users_seq d' = users_seq d \<and>
         (\<not> is_success r \<and> r \<noteq> Failure 500 ''RSVP saved but fetch failed'' \<longrightarrow> d' = d) \<and>
         (is_success r \<or> r = Failure 500 ''RSVP saved but fetch failed'' \<longrightarrow>
            (\<exists>u. sess = Some u \<and>
               ((find_rsvp d (s_id u) (eventId b) = None \<and>
                 rsvps d' = rsvps d @
                   [\<lparr>r_id = rsvps_seq d', user_id = s_id u, event_id = eventId b,
                     r_status = status b, rsvp_date = current_timestamp en,
                     r_notes = or_null (body_notes b)\<rparr>]) \<or>
                (\<exists>xs x ys. rsvps d = xs @ x # ys \<and> rsvp_key x = (s_id u, eventId b) \<and>
                   (\<forall>y \<in> set (xs @ ys). rsvp_key y \<noteq> (s_id u, eventId b)) \<and>
                   rsvps d' = xs @ set_rsvp (status b) (or_null (body_notes b))
                                    (current_timestamp en) x # ys \<and>
                   rsvps_seq d' = rsvps_seq d))))"
  using p
proof (cases rule: post_rsvp_cases)
  case rejected
  then show ?thesis by simp
next
  case (written u ev)
  note w = written(11)
  have r: "is_success r \<or> r = Failure 500 ''RSVP saved but fetch failed''"
    by (simp add: written(12) getRSVPDetails_def)
  have "(find_rsvp d (s_id u) (eventId b) = None \<and>
                 rsvps d' = rsvps d @
                   [\<lparr>r_id = rsvps_seq d', user_id = s_id u, event_id = eventId b,
                     r_status = status b, rsvp_date = current_timestamp en,
                     r_notes = or_null (body_notes b)\<rparr>]) \<or>
                (\<exists>xs x ys. rsvps d = xs @ x # ys \<and> rsvp_key x = (s_id u, eventId b) \<and>
                   (\<forall>y \<in> set (xs @ ys). rsvp_key y \<noteq> (s_id u, eventId b)) \<and>
                   rsvps d' = xs @ set_rsvp (status b) (or_null (body_notes b))
                                    (current_timestamp en) x # ys \<and>
                   rsvps_seq d' = rsvps_seq d)"
  proof (cases "find_rsvp d (s_id u) (eventId b)")
    case None
    from rsvp_write_insert_shape [OF None w] None show ?thesis by simp
  next
    case (Some x)
    from rsvp_write_update_shape [OF uniq Some w] show ?thesis by blast
  qed
  with rsvp_write_frame [OF w] r written(1) show ?thesis by auto
qed

text \<open>
  The theorem at a request whose final re-read fails and at a request for a past event.
\<close>

theorem rsvp_upsert_frame_witness:
  "rsvps_unique (store_of (workshop None)) \<and>
   users (snd (post_rsvp env_fetch_fails (Some john) (respond ''attending'')
                 (store_of (workshop None)))) = [] \<and>
   events (snd (post_rsvp env_fetch_fails (Some john) (respond ''attending'')
                 (store_of (workshop None)))) = [workshop None] \<and>
   snd (post_rsvp (env_at 6000) (Some john) (respond ''attending'') (store_of (workshop None)))
     = store_of (workshop None)"
  using rsvp_upsert_frame [where en = env_fetch_fails and sess = "Some john"
      and b = "respond ''attending''" and d = "store_of (workshop None)"
      and r = "fst (post_rsvp env_fetch_fails (Some john) (respond ''attending'')
                 (store_of (workshop None)))"
      and d' = "snd (post_rsvp env_fetch_fails (Some john) (respond ''attending'')
                 (store_of (workshop None)))"]
    rsvp_upsert_frame [where en = "env_at 6000" and sess = "Some john"
      and b = "respond ''attending''" and d = "store_of (workshop None)"
      and r = "fst (post_rsvp (env_at 6000) (Some john) (respond ''attending'')
                 (store_of (workshop None)))"
      and d' = "snd (post_rsvp (env_at 6000) (Some john) (respond ''attending'')
                 (store_of (workshop None)))"]
  by (simp add: env_fetch_fails_def fetch_details_fails_def example_defs rsvp_defs
        rsvps_unique_def)

text \<open>
  The claim as stated fails: the request below does not succeed, and the table, empty
  before, holds the new row after it.
\<close>

theorem saved_but_fetch_failed_counterexample:
  "\<not> is_success (fst (post_rsvp env_fetch_fails (Some john) (respond ''attending'')
                         (store_of (workshop None)))) \<and>
   rsvps (store_of (workshop None)) = [] \<and>
   rsvps (snd (post_rsvp env_fetch_fails (Some john) (respond ''attending'')
                 (store_of (workshop None))))
     = [\<lparr>r_id = 1, user_id = 2, event_id = 1, r_status = ''attending'',
         rsvp_date = 1000, r_notes = None\<rparr>]"
  by (simp add: env_fetch_fails_def fetch_details_fails_def example_defs rsvp_defs)

subsection \<open>C9: login failures look alike\<close>




subsection \<open>C10: re-submitting attending at full capacity\<close>

text \<open>
  Claim C10. The event's attending count equals its capacity and the requester's stored
  row is already attending. A validated attending request of that user is answered 400
  "Event is at full capacity" and the store is unchanged: the count includes the
  requester's row and is compared before the row is looked up.
\<close>

theorem reattend_at_capacity_rejected:
  assumes "sess = Some u" "s_id u \<noteq> 0" "s_username u \<noteq> []" "validateRSVP b = []"
    and "status b = ''attending''"
    and "\<not> store_fails en FetchEvent" "\<not> store_fails en CountAttending"
    and "fetch_active_event d (eventId b) = Some ev"
        "\<not> date_le_now (event_date ev) (now en)"
    and "max_attendees ev = Some C" "int (count_attending d (eventId b)) = C"
    and "find_rsvp d (s_id u) (eventId b) = Some row" "r_status row = ''attending''"
  shows "post_rsvp en sess b d = (Failure 400 ''Event is at full capacity'', d)"
proof -
  from find_rsvp_Some [OF assms(12)] assms(13)
  have "row \<in> set (rsvps d)" "attending_at (eventId b) row" by (simp_all add: attending_at_def)
  then have "count_attending d (eventId b) \<noteq> 0"
    using count_zero_not_attending by blast
  with assms(10,11) have "js_truthy (max_attendees ev)"
    "count_ge (count_attending d (eventId b)) (max_attendees ev)"
    by (auto simp: js_truthy_def count_ge_def)
  with assms show ?thesis by (simp add: post_rsvp_def authMiddleware_def)
qed

text \<open>
  The theorem at the store where john attends the event of capacity 1.
\<close>

theorem reattend_at_capacity_rejected_witness:
  "find_rsvp john_attending 2 1 =
     Some \<lparr>r_id = 1, user_id = 2, event_id = 1, r_status = ''attending'',
           rsvp_date = 1000, r_notes = None\<rparr> \<and>
   post_rsvp (env_at 2000) (Some john) (respond ''attending'') john_attending
     = (Failure 400 ''Event is at full capacity'', john_attending)"
  using reattend_at_capacity_rejected [where sess = "Some john" and u = john
      and en = "env_at 2000" and b = "respond ''attending''" and d = john_attending
      and ev = "workshop (Some 1)" and C = 1
      and row = "\<lparr>r_id = 1, user_id = 2, event_id = 1, r_status = ''attending'',
                  rsvp_date = 1000, r_notes = None\<rparr>"]
  by (simp add: john_attending_eq)
     (simp add: example_defs validateRSVP_def rsvp_statuses_def fetch_active_event_def
        date_le_now_def count_attending_def find_rsvp_def rsvp_key_def)

end
